theory Spec2Isabelle
  imports Complex_Main
begin

section \<open>The semantic cache of \<^verbatim>\<open>Semantic_cache_from_scratch.ipynb\<close>\<close>

text \<open>
  The notebook defines \<^verbatim>\<open>make_prediction\<close> (the call of the Ares live-search API) and the
  class \<^verbatim>\<open>SemanticCaching\<close> with the methods \<^verbatim>\<open>__init__\<close>, \<^verbatim>\<open>clear_cache\<close>,
  \<^verbatim>\<open>load_cache\<close>, \<^verbatim>\<open>save_cache\<close>, \<^verbatim>\<open>ask\<close> and \<^verbatim>\<open>generate_answer\<close>.
  Each is embedded below under its own name. Exceptions are values of the type \<open>exn\<close>,
  a method that can raise returns a sum (\<open>Inl\<close> the exception), and the mutation of the
  object and of the cache file is explicit state passing.

  A floating-point number is the rational it denotes. The arithmetic of FAISS on 32-bit
  floats and the Python float \<^verbatim>\<open>0.3\<close> are rounded as IEEE 754 rounds them (to nearest,
  ties to even); infinities and NaN are not represented.
\<close>

subsection \<open>Floating-point rounding\<close>

text \<open>
  \<open>round_half_even\<close> is the integer nearest to a rational, the even one on a tie.
\<close>

definition round_half_even :: "rat \<Rightarrow> int" where
  "round_half_even x =
     (let f = \<lfloor>x\<rfloor>; r = x - of_int f
      in if r < 1 / 2 then f else if 1 / 2 < r then f + 1 else if even f then f else f + 1)"

text \<open>
  The spacing of the floats of precision \<open>p\<close> around a positive \<open>x\<close>: the power of two
  \<open>u\<close> with \<open>u * 2 ^ (p - 1) \<le> x < u * 2 ^ p\<close>, searched upwards from the spacing at 1
  and downwards from the spacing below 1, no further than the largest and the smallest
  spacing of the format (the latter is the spacing of the subnormal numbers).
\<close>

fun ulp_up :: "nat \<Rightarrow> nat \<Rightarrow> rat \<Rightarrow> rat \<Rightarrow> rat" where
  "ulp_up p 0 u x = u"
| "ulp_up p (Suc n) u x = (if x < u * 2 ^ p then u else ulp_up p n (2 * u) x)"

fun ulp_down :: "nat \<Rightarrow> nat \<Rightarrow> rat \<Rightarrow> rat \<Rightarrow> rat" where
  "ulp_down p 0 u x = u"
| "ulp_down p (Suc n) u x = (if u * 2 ^ (p - 1) \<le> x then u else ulp_down p n (u / 2) x)"

definition ulp :: "nat \<Rightarrow> nat \<Rightarrow> rat \<Rightarrow> rat" where
  "ulp p emax x =
     (if 1 \<le> x then ulp_up p emax (1 / 2 ^ (p - 1)) x
      else ulp_down p (emax - 2) (1 / 2 ^ p) x)"

text \<open>
  Rounding to the format of precision \<open>p\<close> and largest exponent \<open>emax\<close>. A result
  above the largest finite number of the format stands for an overflow.
\<close>

definition ieee_round :: "nat \<Rightarrow> nat \<Rightarrow> rat \<Rightarrow> rat" where
  "ieee_round p emax x =
     (if x = 0 then 0
      else (let u = ulp p emax \<bar>x\<bar> in of_int (round_half_even (x / u)) * u))"

text \<open>The 32-bit floats of FAISS and numpy, and the 64-bit floats of Python.\<close>

definition f32 :: "rat \<Rightarrow> rat" where
  "f32 = ieee_round 24 127"

definition f64 :: "rat \<Rightarrow> rat" where
  "f64 = ieee_round 53 1023"

subsection \<open>Values and exceptions\<close>

type_synonym vec = "rat list"

text \<open>What \<^verbatim>\<open>response.json()\<close> can return; \<open>JNull\<close> is Python's \<^verbatim>\<open>None\<close>.\<close>

datatype json =
    JNull
  | JBool bool
  | JNum rat
  | JStr string
  | JArr "json list"
  | JObj "(string \<times> json) list"

text \<open>
  The exceptions the code can raise. The three \<^verbatim>\<open>RuntimeError\<close>s of the source differ by
  their message: \<open>MissingApiKey\<close> is \<^verbatim>\<open>RuntimeError("Missing ARES_API_KEY in Colab userdata")\<close>,
  \<open>GenerateAnswerError e\<close> is \<^verbatim>\<open>RuntimeError(f"Error during 'generate_answer' method: {e}")\<close>
  and \<open>AskError e\<close> is \<^verbatim>\<open>RuntimeError(f"Error during 'ask' method: {e}")\<close>.
\<close>

datatype exn =
    MissingApiKey
  | TypeError
  | KeyError string
  | IndexError
  | AssertionError
  | JSONDecodeError
  | GenerateAnswerError exn
  | AskError exn

text \<open>
  Python's \<^verbatim>\<open>obj[key]\<close> with a string key: a dictionary looks the key up and raises
  \<^verbatim>\<open>KeyError\<close> when it is missing; \<^verbatim>\<open>None\<close>, a number, a string and a list raise
  \<^verbatim>\<open>TypeError\<close>. (The keys of a parsed dictionary are distinct.)
\<close>

fun getitem :: "json \<Rightarrow> string \<Rightarrow> exn + json" where
  "getitem (JObj kvs) k = (case map_of kvs k of None \<Rightarrow> Inl (KeyError k) | Some v \<Rightarrow> Inr v)"
| "getitem _ k = Inl TypeError"

subsection \<open>The environment: encoder, credential store, HTTP endpoint\<close>

text \<open>
  \<^verbatim>\<open>requests.post\<close> either raises a \<^verbatim>\<open>RequestException\<close> or returns a response with a
  status code and a body; the body is \<open>None\<close> when \<^verbatim>\<open>response.json()\<close> raises
  \<^verbatim>\<open>ValueError\<close>, and the parsed value otherwise.
\<close>

datatype http_outcome =
    RequestException
  | Response int "json option"

text \<open>
  \<open>encode\<close> is \<^verbatim>\<open>self.encoder.encode([question])[0]\<close>, a function of the question
  (the encoder is taken to return a vector for every string, of any length);
  \<open>api_key\<close> is \<^verbatim>\<open>userdata.get("ARES_API_KEY")\<close>; \<open>post\<close> is the endpoint's answer to
  the payload \<^verbatim>\<open>{"query": data}\<close>. \<open>weak_scalars\<close> is the promotion rule of the
  installed numpy for an operation on a 32-bit float and a Python float: since NumPy 2
  the Python float is converted to 32 bits; before, the 32-bit float is converted to 64
  bits.
\<close>

record env =
  encode :: "string \<Rightarrow> vec"
  api_key :: "string option"
  post :: "string list \<Rightarrow> http_outcome"
  weak_scalars :: bool

subsection \<open>The object and the world it acts on\<close>

record cache_dict =
  questions :: "string list"
  embeddings :: "vec list"
  answers :: "json list"
  response_text :: "json list"

text \<open>
  The file at the path \<^verbatim>\<open>self.json_file\<close>: absent, present with a content that
  \<^verbatim>\<open>json.load\<close> rejects, or present with a dictionary of the four lists (of any lengths),
  which is what \<^verbatim>\<open>save_cache\<close> writes.
\<close>

datatype file_content = Absent | Unparseable | Stored cache_dict

text \<open>
  What an observer sees besides the returned value: the line \<^verbatim>\<open>Cache hit at row: ...\<close>
  printed by the hit branch, each call of \<^verbatim>\<open>make_prediction\<close> with its argument, and
  each \<^verbatim>\<open>open\<close> of the cache file for reading or for writing.
\<close>

datatype event =
    Cache_hit nat
  | Make_prediction "string list"
  | Open_read
  | Open_write

text \<open>
  \<open>index\<close> holds the vectors of the \<^verbatim>\<open>faiss.IndexFlatL2\<close> in insertion order (the
  position of a vector is its FAISS label), \<open>json_file\<close> the content of the file at that
  path, \<open>trace\<close> the events so far.
\<close>

record state =
  index :: "vec list"
  euclidean_threshold :: rat
  cache :: cache_dict
  json_file :: file_content
  trace :: "event list"

subsection \<open>The FAISS flat index\<close>

text \<open>
  FAISS is a library the notebook calls. Its flat index is modelled by what it does on a
  search for one neighbour of one query: an exhaustive scan over the stored vectors.
  The dimension is the one given to \<^verbatim>\<open>faiss.IndexFlatL2(768)\<close>.
\<close>

definition index_d :: nat where
  "index_d = 768"

text \<open>The largest finite 32-bit float, the distance FAISS reports for a missing result.\<close>

definition FLT_MAX :: rat where
  "FLT_MAX = (2 ^ 24 - 1) * 2 ^ 104"

text \<open>
  The squared distance as FAISS computes it, in 32-bit floats: the loop
  \<^verbatim>\<open>tmp = x[i] - y[i]; res += tmp * tmp\<close> of its reference implementation, every
  operation rounded. (A vectorised build adds the same squares in another order.)
\<close>

definition fvec_L2sqr :: "vec \<Rightarrow> vec \<Rightarrow> rat" where
  "fvec_L2sqr x y =
     foldl (\<lambda>res (a, b). f32 (res + f32 (f32 (a - b) * f32 (a - b)))) 0 (zip x y)"

text \<open>
  The exhaustive scan for one nearest neighbour: the best pair (distance, label) starts at
  \<open>(FLT_MAX, -1)\<close> and is replaced by a stored vector that is strictly nearer, so the
  lowest position wins a tie.
\<close>

fun scan :: "vec \<Rightarrow> vec list \<Rightarrow> nat \<Rightarrow> rat \<times> int \<Rightarrow> rat \<times> int" where
  "scan x [] i best = best"
| "scan x (y # ys) i best =
     scan x ys (Suc i) (if fvec_L2sqr x y < fst best then (fvec_L2sqr x y, int i) else best)"

text \<open>
  \<^verbatim>\<open>D, I = self.index.search(embedding, 1)\<close>, reduced to \<^verbatim>\<open>(D[0][0], I[0][0])\<close>. The
  Python wrapper asserts that the query has the dimension of the index.
\<close>

definition index_search :: "vec list \<Rightarrow> vec \<Rightarrow> exn + rat \<times> int" where
  "index_search idx x =
     (if length x \<noteq> index_d then Inl AssertionError else Inr (scan x idx 0 (FLT_MAX, - 1)))"

text \<open>\<^verbatim>\<open>self.index.add(embedding)\<close>, with the same assertion.\<close>

definition index_add :: "vec list \<Rightarrow> vec \<Rightarrow> exn + vec list" where
  "index_add idx x = (if length x \<noteq> index_d then Inl AssertionError else Inr (idx @ [x]))"

subsection \<open>\<^verbatim>\<open>make_prediction\<close>\<close>

text \<open>
  A missing or empty key raises; a request exception, a status other than 200 and a body
  that is not JSON are printed and give \<^verbatim>\<open>None\<close>.
\<close>

definition make_prediction :: "env \<Rightarrow> string list \<Rightarrow> exn + json" where
  "make_prediction e data =
     (case api_key e of
        None \<Rightarrow> Inl MissingApiKey
      | Some k \<Rightarrow>
          if k = [] then Inl MissingApiKey
          else (case post e data of
                  RequestException \<Rightarrow> Inr JNull
                | Response status_code body \<Rightarrow>
                    if status_code = 200
                    then (case body of Some j \<Rightarrow> Inr j | None \<Rightarrow> Inr JNull)
                    else Inr JNull))"

subsection \<open>The methods of \<^verbatim>\<open>SemanticCaching\<close>\<close>

definition empty_cache :: cache_dict where
  "empty_cache = \<lparr>questions = [], embeddings = [], answers = [], response_text = []\<rparr>"

text \<open>
  \<^verbatim>\<open>save_cache\<close> overwrites the file with the dictionary; the write is taken to succeed.
\<close>

definition save_cache :: "state \<Rightarrow> state" where
  "save_cache s = s\<lparr>json_file := Stored (cache s), trace := trace s @ [Open_write]\<rparr>"

definition clear_cache :: "state \<Rightarrow> state" where
  "clear_cache s = save_cache (s\<lparr>cache := empty_cache, index := []\<rparr>)"

text \<open>
  \<^verbatim>\<open>load_cache\<close> catches \<^verbatim>\<open>FileNotFoundError\<close> only; what \<^verbatim>\<open>json.load\<close> raises
  leaves the method. The index is not touched.
\<close>

definition load_cache :: "state \<Rightarrow> exn + state" where
  "load_cache s =
     (case json_file s of
        Absent \<Rightarrow> Inr (s\<lparr>cache := empty_cache, trace := trace s @ [Open_read]\<rparr>)
      | Unparseable \<Rightarrow> Inl JSONDecodeError
      | Stored c \<Rightarrow> Inr (s\<lparr>cache := c, trace := trace s @ [Open_read]\<rparr>))"

text \<open>
  \<^verbatim>\<open>__init__(json_file, clear_on_init)\<close>, given the content of the file at that path. The
  attribute \<^verbatim>\<open>cache\<close> does not exist before one of the two branches sets it; the record
  starts it at the empty structure, which no branch reads. The threshold is the Python
  float \<^verbatim>\<open>0.3\<close>, the 64-bit float nearest to 3/10.
\<close>

definition init :: "file_content \<Rightarrow> bool \<Rightarrow> exn + state" where
  "init f clear_on_init =
     (let s = \<lparr>index = [], euclidean_threshold = f64 (3 / 10), cache = empty_cache,
                json_file = f, trace = []\<rparr>
      in if clear_on_init then Inr (clear_cache s) else load_cache s)"

text \<open>
  \<^verbatim>\<open>generate_answer\<close> calls \<^verbatim>\<open>make_prediction([question])\<close>, reads
  \<^verbatim>\<open>result['data']['response_text']\<close> and wraps every exception.
\<close>

definition generate_answer :: "env \<Rightarrow> state \<Rightarrow> string \<Rightarrow> (exn + json \<times> json) \<times> state" where
  "generate_answer e s question =
     (let s1 = s\<lparr>trace := trace s @ [Make_prediction [question]]\<rparr>
      in (case make_prediction e [question] of
            Inl x \<Rightarrow> Inl (GenerateAnswerError x)
          | Inr result \<Rightarrow>
              (case getitem result ''data'' of
                 Inl x \<Rightarrow> Inl (GenerateAnswerError x)
               | Inr d \<Rightarrow>
                   (case getitem d ''response_text'' of
                      Inl x \<Rightarrow> Inl (GenerateAnswerError x)
                    | Inr rt \<Rightarrow> Inr (result, rt))),
          s1))"

text \<open>
  The right operand of \<^verbatim>\<open>D[0][0] <= self.euclidean_threshold\<close>, where the left one is a
  32-bit float of numpy and the threshold a Python float: the threshold rounded to 32
  bits under the promotion rule of NumPy 2, the threshold itself under the older rule
  (a 32-bit float converts to 64 bits without rounding).
\<close>

definition compared_threshold :: "env \<Rightarrow> rat \<Rightarrow> rat" where
  "compared_threshold e thr = (if weak_scalars e then f32 thr else thr)"

text \<open>
  \<^verbatim>\<open>ask\<close>. The search runs first, on any index. The hit branch prints and returns the
  stored text at the label (\<^verbatim>\<open>IndexError\<close> when the list is shorter). The miss branch
  generates, appends to the four lists, adds to the index and saves; an exception at any
  point leaves what was done before it and is wrapped.
\<close>

definition ask :: "env \<Rightarrow> state \<Rightarrow> string \<Rightarrow> (exn + json) \<times> state" where
  "ask e s question =
     (let embedding = encode e question in
      case index_search (index s) embedding of
        Inl x \<Rightarrow> (Inl (AskError x), s)
      | Inr (D, I) \<Rightarrow>
          if 0 \<le> D \<and> I \<noteq> - 1 \<and> D \<le> compared_threshold e (euclidean_threshold s) then
            (let row_id = nat I;
                 s1 = s\<lparr>trace := trace s @ [Cache_hit row_id]\<rparr>
             in if row_id < length (response_text (cache s))
                then (Inr (response_text (cache s) ! row_id), s1)
                else (Inl (AskError IndexError), s1))
          else
            (case generate_answer e s question of
               (Inl x, s1) \<Rightarrow> (Inl (AskError x), s1)
             | (Inr (answer, rt), s1) \<Rightarrow>
                 (let c = cache s1;
                      s2 = s1\<lparr>cache := c\<lparr>questions := questions c @ [question],
                                          embeddings := embeddings c @ [embedding],
                                          answers := answers c @ [answer],
                                          response_text := response_text c @ [rt]\<rparr>\<rparr>
                  in case index_add (index s2) embedding of
                       Inl x \<Rightarrow> (Inl (AskError x), s2)
                     | Inr idx \<Rightarrow> (Inr rt, save_cache (s2\<lparr>index := idx\<rparr>)))))"

subsection \<open>Reachable states\<close>

text \<open>
  The states of an instance: after construction on any file content, and after any
  \<^verbatim>\<open>ask\<close> or \<^verbatim>\<open>clear_cache\<close> from there.
\<close>

inductive reachable :: "env \<Rightarrow> state \<Rightarrow> bool" for e :: env where
  constructed: "init f clear_on_init = Inr s \<Longrightarrow> reachable e s"
| asked: "reachable e s \<Longrightarrow> reachable e (snd (ask e s question))"
| cleared: "reachable e s \<Longrightarrow> reachable e (clear_cache s)"

subsection \<open>Notions of the specification\<close>

text \<open>
  The squared Euclidean distance of the specification, the sum of the squared differences,
  and the least one from a query to the stored vectors.
\<close>

definition sq_dist :: "vec \<Rightarrow> vec \<Rightarrow> rat" where
  "sq_dist x y = sum_list (map (\<lambda>(a, b). (a - b)\<^sup>2) (zip x y))"

definition nearest_sq_dist :: "vec list \<Rightarrow> vec \<Rightarrow> rat" where
  "nearest_sq_dist idx x = Min (set (map (sq_dist x) idx))"

text \<open>
  The least distance that FAISS reports from a query to the stored vectors, and the hit
  condition on it: a stored vector exists and the reported distance of the nearest one
  is at most the threshold, as numpy compares the two.
\<close>

definition nearest_distance :: "vec list \<Rightarrow> vec \<Rightarrow> rat" where
  "nearest_distance idx x = Min (set (map (fvec_L2sqr x) idx))"

definition within_threshold :: "env \<Rightarrow> state \<Rightarrow> string \<Rightarrow> bool" where
  "within_threshold e s q \<longleftrightarrow>
     index s \<noteq> [] \<and>
     nearest_distance (index s) (encode e q) \<le> compared_threshold e (euclidean_threshold s)"

text \<open>
  Which branch an \<^verbatim>\<open>ask\<close> took, read off what it did: the hit branch prints its line
  and does nothing else; the miss branch calls \<^verbatim>\<open>make_prediction\<close> first.
\<close>

fun hit_events :: "event list \<Rightarrow> bool" where
  "hit_events [Cache_hit r] = True"
| "hit_events _ = False"

definition took_hit_path :: "env \<Rightarrow> state \<Rightarrow> string \<Rightarrow> bool" where
  "took_hit_path e s q = hit_events (drop (length (trace s)) (trace (snd (ask e s q))))"

text \<open>
  The index and the four lists describe the same entries: the index holds the stored
  embeddings, and every list has one element per vector.
\<close>

definition aligned :: "state \<Rightarrow> bool" where
  "aligned s \<longleftrightarrow>
     embeddings (cache s) = index s \<and>
     length (questions (cache s)) = length (index s) \<and>
     length (answers (cache s)) = length (index s) \<and>
     length (response_text (cache s)) = length (index s)"

text \<open>
  Position \<open>i\<close> holds a vector nearest to \<open>x\<close>, and no earlier position holds one as near
  (by the distances that FAISS reports).
\<close>

definition is_nearest :: "vec list \<Rightarrow> vec \<Rightarrow> nat \<Rightarrow> bool" where
  "is_nearest idx x i \<longleftrightarrow>
     i < length idx \<and>
     (\<forall>y\<in>set idx. fvec_L2sqr x (idx ! i) \<le> fvec_L2sqr x y) \<and>
     (\<forall>y\<in>set (take i idx). fvec_L2sqr x (idx ! i) < fvec_L2sqr x y)"

text \<open>
  The text that \<^verbatim>\<open>generate_answer\<close> reads in a parsed body, and the answers of the
  provider that the specification counts as not a success: no credential, a network
  failure, a status outside 200..299, a body that is not JSON, and a body without a string
  at \<^verbatim>\<open>['data']['response_text']\<close>.
\<close>

definition payload_text :: "json \<Rightarrow> exn + json" where
  "payload_text j =
     (case getitem j ''data'' of Inl x \<Rightarrow> Inl x | Inr d \<Rightarrow> getitem d ''response_text'')"

fun not_a_string :: "json \<Rightarrow> bool" where
  "not_a_string (JStr t) = False"
| "not_a_string _ = True"

definition provider_failure :: "env \<Rightarrow> string \<Rightarrow> bool" where
  "provider_failure e q \<longleftrightarrow>
     api_key e = None \<or> api_key e = Some [] \<or>
     (case post e [q] of
        RequestException \<Rightarrow> True
      | Response status_code body \<Rightarrow>
          status_code < 200 \<or> 300 \<le> status_code \<or>
          (case body of
             None \<Rightarrow> True
           | Some j \<Rightarrow> (case payload_text j of Inl x \<Rightarrow> True | Inr v \<Rightarrow> not_a_string v)))"

text \<open>
  What the provider did on a question, by the order in which the code looks at it, and
  what reaches \<^verbatim>\<open>generate_answer\<close> in each case: the exception it wraps, or the text
  it returns.
\<close>

datatype provider_outcome =
    Missing_credential
  | Network_failure
  | Status_not_200 int
  | Not_json
  | Lacks_text exn
  | Text json

definition classify :: "env \<Rightarrow> string \<Rightarrow> provider_outcome" where
  "classify e q =
     (if api_key e = None \<or> api_key e = Some [] then Missing_credential
      else (case post e [q] of
              RequestException \<Rightarrow> Network_failure
            | Response status_code body \<Rightarrow>
                if status_code = 200
                then (case body of
                        None \<Rightarrow> Not_json
                      | Some j \<Rightarrow>
                          (case payload_text j of Inl x \<Rightarrow> Lacks_text x | Inr v \<Rightarrow> Text v))
                else Status_not_200 status_code))"

fun surfaced :: "provider_outcome \<Rightarrow> exn + json" where
  "surfaced Missing_credential = Inl (AskError (GenerateAnswerError MissingApiKey))"
| "surfaced Network_failure = Inl (AskError (GenerateAnswerError TypeError))"
| "surfaced (Status_not_200 c) = Inl (AskError (GenerateAnswerError TypeError))"
| "surfaced Not_json = Inl (AskError (GenerateAnswerError TypeError))"
| "surfaced (Lacks_text x) = Inl (AskError (GenerateAnswerError x))"
| "surfaced (Text v) = Inr v"

subsection \<open>Example data\<close>

text \<open>
  An encoder whose last coordinate is an eighth of the length of the question and whose
  other 767 coordinates are zero, a provider that answers every query with the query
  itself, and a provider whose requests fail. The numpy is NumPy 2.
\<close>

definition pad :: vec where
  "pad = replicate 767 0"

definition length_encoder :: "string \<Rightarrow> vec" where
  "length_encoder q = pad @ [of_nat (length q) / 8]"

definition answer_of :: "string \<Rightarrow> json" where
  "answer_of q = JObj [(''data'', JObj [(''response_text'', JStr q)])]"

definition echo_post :: "string list \<Rightarrow> http_outcome" where
  "echo_post data = Response 200 (Some (answer_of (concat data)))"

definition env_up :: env where
  "env_up = \<lparr>encode = length_encoder, api_key = Some ''k'', post = echo_post,
             weak_scalars = True\<rparr>"

definition env_down :: env where
  "env_down = \<lparr>encode = length_encoder, api_key = Some ''k'',
               post = (\<lambda>data. RequestException), weak_scalars = True\<rparr>"

text \<open>
  A provider that answers with status 500, and one that answers with status 200 and a
  body whose response text is \<^verbatim>\<open>null\<close>.
\<close>

definition env_500 :: env where
  "env_500 = \<lparr>encode = length_encoder, api_key = Some ''k'',
              post = (\<lambda>data. Response 500 None), weak_scalars = True\<rparr>"

definition null_answer :: json where
  "null_answer = JObj [(''data'', JObj [(''response_text'', JNull)])]"

definition env_null :: env where
  "env_null = \<lparr>encode = length_encoder, api_key = Some ''k'',
               post = (\<lambda>data. Response 200 (Some null_answer)), weak_scalars = True\<rparr>"

text \<open>
  The instance constructed where no cache file exists, and the states after asking
  \<^verbatim>\<open>"a"\<close> and then \<^verbatim>\<open>"ccccccc"\<close>.
\<close>

definition fresh :: state where
  "fresh = \<lparr>index = [], euclidean_threshold = f64 (3 / 10), cache = empty_cache,
            json_file = Absent, trace = [Open_read]\<rparr>"

definition after_a :: state where
  "after_a = snd (ask env_up fresh ''a'')"

definition after_ac :: state where
  "after_ac = snd (ask env_up after_a ''ccccccc'')"

text \<open>
  The content of the cache file after the first question, and the instance a later
  session constructs on it. A store whose lists have different lengths.
\<close>

definition entry_a :: cache_dict where
  "entry_a = \<lparr>questions = [''a''], embeddings = [length_encoder ''a''],
              answers = [answer_of ''a''], response_text = [JStr ''a'']\<rparr>"

definition reloaded :: state where
  "reloaded = \<lparr>index = [], euclidean_threshold = f64 (3 / 10), cache = entry_a,
               json_file = Stored entry_a, trace = [Open_read]\<rparr>"

definition uneven :: cache_dict where
  "uneven = \<lparr>questions = [''a'', ''b''], embeddings = [], answers = [], response_text = [JStr ''a'']\<rparr>"

text \<open>
  An encoder that sends the empty question to the zero vector and every other question to
  the vector of the 32-bit floats 0.5, 0.2 and 0.1 after 765 zeros; the state after asking
  the empty question.
\<close>

definition pad765 :: vec where
  "pad765 = replicate 765 0"

definition origin :: vec where
  "origin = pad765 @ [0, 0, 0]"

definition near_boundary :: vec where
  "near_boundary = pad765 @ [1 / 2, f32 (1 / 5), f32 (1 / 10)]"

definition boundary_encoder :: "string \<Rightarrow> vec" where
  "boundary_encoder q = (if q = [] then origin else near_boundary)"

definition env_boundary :: env where
  "env_boundary = \<lparr>encode = boundary_encoder, api_key = Some ''k'', post = echo_post,
                   weak_scalars = True\<rparr>"

definition after_empty :: state where
  "after_empty = snd (ask env_boundary fresh [])"

section \<open>Properties of the rounding\<close>

lemma ulp_up_pos: "0 < u \<Longrightarrow> 0 < ulp_up p n u x"
  by (induction n arbitrary: u) auto

lemma ulp_down_pos: "0 < u \<Longrightarrow> 0 < ulp_down p n u x"
  by (induction n arbitrary: u) auto

lemma ulp_pos: "0 < ulp p emax x"
  by (simp add: ulp_def ulp_up_pos ulp_down_pos)

lemma round_half_even_nonneg: "0 \<le> x \<Longrightarrow> 0 \<le> round_half_even x"
  by (auto simp: round_half_even_def Let_def)

lemma ieee_round_zero: "ieee_round p emax 0 = 0"
  by (simp add: ieee_round_def)

lemma ieee_round_nonneg: "0 \<le> x \<Longrightarrow> 0 \<le> ieee_round p emax x"
  using ulp_pos[of p emax "\<bar>x\<bar>"]
  by (auto simp: ieee_round_def Let_def intro!: mult_nonneg_nonneg round_half_even_nonneg)

lemma f32_zero: "f32 0 = 0"
  by (simp add: f32_def ieee_round_zero)

lemma f32_nonneg: "0 \<le> x \<Longrightarrow> 0 \<le> f32 x"
  by (simp add: f32_def ieee_round_nonneg)

text \<open>Rules that evaluate a rounding of a given number.\<close>

lemma ulp_up_numeral:
  "ulp_up p (numeral k) u x = (if x < u * 2 ^ p then u else ulp_up p (pred_numeral k) (2 * u) x)"
  by (simp add: numeral_eq_Suc)

lemma ulp_down_numeral:
  "ulp_down p (numeral k) u x =
     (if u * 2 ^ (p - 1) \<le> x then u else ulp_down p (pred_numeral k) (u / 2) x)"
  by (simp add: numeral_eq_Suc)

lemma floor_numeral_div:
  "\<lfloor>numeral a / numeral b :: rat\<rfloor> = numeral a div numeral b"
  "\<lfloor>- numeral a / numeral b :: rat\<rfloor> = - numeral a div numeral b"
  using floor_divide_of_int_eq[of "numeral a" "numeral b", where ?'a = rat]
    floor_divide_of_int_eq[of "- numeral a" "numeral b", where ?'a = rat] by simp_all

lemmas float_eval = f32_def f64_def ieee_round_def ulp_def ulp_up_numeral ulp_down_numeral
  round_half_even_def floor_numeral_div Let_def

lemma python_threshold: "f64 (3 / 10) = 5404319552844595 / 2 ^ 54"
  by (simp add: float_eval)

lemma numpy_threshold: "f32 (f64 (3 / 10)) = 10066330 / 2 ^ 25"
  by (simp add: float_eval)

section \<open>Properties of the index\<close>

lemma fvec_L2sqr_step_nonneg: "0 \<le> res \<Longrightarrow> 0 \<le> f32 (res + f32 (f32 d * f32 d))"
  by (intro f32_nonneg add_nonneg_nonneg) simp_all

lemma foldl_L2sqr_nonneg:
  "0 \<le> res \<Longrightarrow>
   0 \<le> foldl (\<lambda>res (a, b). f32 (res + f32 (f32 (a - b) * f32 (a - b)))) res ps"
proof (induction ps arbitrary: res)
  case Nil
  then show ?case by simp
next
  case (Cons p ps)
  obtain a b where p: "p = (a, b)" by (cases p)
  have "0 \<le> f32 (res + f32 (f32 (a - b) * f32 (a - b)))"
    using Cons.prems by (rule fvec_L2sqr_step_nonneg)
  from Cons.IH[OF this] show ?case by (simp add: p)
qed

lemma fvec_L2sqr_nonneg: "0 \<le> fvec_L2sqr x y"
  unfolding fvec_L2sqr_def by (rule foldl_L2sqr_nonneg) simp

lemma fvec_L2sqr_self: "fvec_L2sqr x x = 0"
  unfolding fvec_L2sqr_def by (induction x) (simp_all add: f32_zero)

text \<open>Equal coordinates in front add nothing to the distance.\<close>

lemma fvec_L2sqr_prefix: "fvec_L2sqr (z @ x) (z @ y) = fvec_L2sqr x y"
  using fvec_L2sqr_self[of z] by (simp add: fvec_L2sqr_def)

lemma fvec_L2sqr_nil: "fvec_L2sqr [] [] = 0"
  by (simp add: fvec_L2sqr_def)

lemma fvec_L2sqr_last:
  "fvec_L2sqr (z @ [a]) (z @ [b]) = f32 (f32 (f32 (a - b) * f32 (a - b)))"
  by (simp add: fvec_L2sqr_prefix) (simp add: fvec_L2sqr_def)

lemma Min_insert_min:
  "finite S \<Longrightarrow> Min (insert (min a b) S) = Min (insert a (insert b S))"
  for a b :: rat
  by (cases "S = {}") (simp_all add: min.assoc)

text \<open>The scan returns the least distance among the start value and the stored vectors.\<close>

lemma scan_fst: "fst (scan x ys i best) = Min (insert (fst best) (fvec_L2sqr x ` set ys))"
proof (induction ys arbitrary: i best)
  case Nil
  then show ?case by simp
next
  case (Cons y ys)
  let ?d = "fvec_L2sqr x y"
  have b: "fst (if ?d < fst best then (?d, int i) else best) = min (fst best) ?d"
    by (simp add: min_def)
  have "fst (scan x (y # ys) i best) = Min (insert (min (fst best) ?d) (fvec_L2sqr x ` set ys))"
    by (simp only: scan.simps Cons.IH b)
  also have "\<dots> = Min (insert (fst best) (insert ?d (fvec_L2sqr x ` set ys)))"
    by (rule Min_insert_min) simp
  finally show ?case by simp
qed

text \<open>The label stays at its start value exactly when no stored vector is nearer.\<close>

lemma scan_snd:
  "snd (scan x ys i best) = - 1 \<longleftrightarrow> snd best = - 1 \<and> (\<forall>y\<in>set ys. fst best \<le> fvec_L2sqr x y)"
  by (induction ys arbitrary: i best) (auto simp: not_less)

lemma scan_keep: "\<forall>y\<in>set ys. fst best \<le> fvec_L2sqr x y \<Longrightarrow> scan x ys i best = best"
  by (induction ys arbitrary: i) auto


text \<open>The scan returns the first position among those of least distance.\<close>

lemma scan_first_min:
  "k < length ys \<Longrightarrow> fvec_L2sqr x (ys ! k) < fst best \<Longrightarrow>
   \<forall>j<length ys. fvec_L2sqr x (ys ! k) \<le> fvec_L2sqr x (ys ! j) \<Longrightarrow>
   \<forall>j<k. fvec_L2sqr x (ys ! k) < fvec_L2sqr x (ys ! j) \<Longrightarrow>
   scan x ys i best = (fvec_L2sqr x (ys ! k), int (i + k))"
proof (induction ys arbitrary: i best k)
  case Nil
  then show ?case by simp
next
  case (Cons y ys)
  show ?case
  proof (cases k)
    case 0
    have "\<forall>z\<in>set ys. fvec_L2sqr x y \<le> fvec_L2sqr x z"
    proof
      fix z assume "z \<in> set ys"
      then obtain j where "j < length ys" "ys ! j = z" by (auto simp: in_set_conv_nth)
      with Cons.prems(3) 0 show "fvec_L2sqr x y \<le> fvec_L2sqr x z" by force
    qed
    then have "scan x ys (Suc i) (fvec_L2sqr x y, int i) = (fvec_L2sqr x y, int i)"
      by (intro scan_keep) simp
    with Cons.prems 0 show ?thesis by simp
  next
    case (Suc k')
    let ?b = "if fvec_L2sqr x y < fst best then (fvec_L2sqr x y, int i) else best"
    have lt: "fvec_L2sqr x (ys ! k') < fvec_L2sqr x y"
      using Cons.prems(4) Suc by force
    have 1: "k' < length ys" using Cons.prems(1) Suc by simp
    have 2: "fvec_L2sqr x (ys ! k') < fst ?b" using lt Cons.prems(2) Suc by simp
    have 3: "\<forall>j<length ys. fvec_L2sqr x (ys ! k') \<le> fvec_L2sqr x (ys ! j)"
      using Cons.prems(3) Suc by force
    have 4: "\<forall>j<k'. fvec_L2sqr x (ys ! k') < fvec_L2sqr x (ys ! j)"
      using Cons.prems(4) Suc by force
    from Cons.IH[OF 1 2 3 4, of "Suc i"] Suc show ?thesis by simp
  qed
qed

lemma search_dim: "index_search idx x = Inr r \<Longrightarrow> length x = index_d"
  by (simp add: index_search_def split: if_splits)

lemma search_total: "length x = index_d \<Longrightarrow> \<exists>D I. index_search idx x = Inr (D, I)"
  by (simp add: index_search_def)

lemma search_nonneg: "index_search idx x = Inr (D, I) \<Longrightarrow> 0 \<le> D"
proof -
  assume a: "index_search idx x = Inr (D, I)"
  then have "D = fst (scan x idx 0 (FLT_MAX, - 1))"
    by (simp add: index_search_def split: if_splits)
  moreover have "0 \<le> FLT_MAX" by (simp add: FLT_MAX_def)
  ultimately show ?thesis
    by (auto simp: scan_fst fvec_L2sqr_nonneg)
qed


text \<open>
  The condition tested by \<^verbatim>\<open>ask\<close> on the result of the search is the hit condition of
  the specification, for a threshold below the sentinel distance.
\<close>

lemma search_hit_iff:
  assumes "index_search idx x = Inr (D, I)" and "thr < FLT_MAX"
  shows "(0 \<le> D \<and> I \<noteq> - 1 \<and> D \<le> thr) \<longleftrightarrow> (idx \<noteq> [] \<and> nearest_distance idx x \<le> thr)"
proof -
  let ?S = "fvec_L2sqr x ` set idx"
  from assms(1) have r: "scan x idx 0 (FLT_MAX, - 1) = (D, I)"
    by (simp add: index_search_def split: if_splits)
  have D: "D = Min (insert FLT_MAX ?S)"
    using scan_fst[of x idx 0 "(FLT_MAX, - 1)"] r by simp
  have I: "I = - 1 \<longleftrightarrow> (\<forall>y\<in>set idx. FLT_MAX \<le> fvec_L2sqr x y)"
    using scan_snd[of x idx 0 "(FLT_MAX, - 1)"] r by simp
  have nn: "0 \<le> D" using assms(1) by (rule search_nonneg)
  show ?thesis
  proof (cases "idx = []")
    case True
    with I show ?thesis by simp
  next
    case False
    then have ne: "?S \<noteq> {}" by simp
    define m where "m = Min ?S"
    have D': "D = min FLT_MAX m" using D ne by (simp add: m_def)
    have nd: "nearest_distance idx x = m" by (simp add: nearest_distance_def m_def)
    have I': "I \<noteq> - 1 \<longleftrightarrow> m < FLT_MAX"
      using I ne by (auto simp: not_le Min_less_iff m_def)
    show ?thesis
      unfolding nd using False nn D' I' assms(2) by (cases "m < FLT_MAX") (auto simp: min_def)
  qed
qed

lemma search_first_min:
  assumes "length x = index_d" and "is_nearest idx x i" and "fvec_L2sqr x (idx ! i) < FLT_MAX"
  shows "index_search idx x = Inr (fvec_L2sqr x (idx ! i), int i)"
proof -
  from assms(2) have i: "i < length idx"
    and le: "\<forall>y\<in>set idx. fvec_L2sqr x (idx ! i) \<le> fvec_L2sqr x y"
    and lt: "\<forall>y\<in>set (take i idx). fvec_L2sqr x (idx ! i) < fvec_L2sqr x y"
    by (simp_all add: is_nearest_def)
  have 1: "\<forall>j<length idx. fvec_L2sqr x (idx ! i) \<le> fvec_L2sqr x (idx ! j)"
    using le by simp
  have 2: "\<forall>j<i. fvec_L2sqr x (idx ! i) < fvec_L2sqr x (idx ! j)"
  proof (intro allI impI)
    fix j assume "j < i"
    with i have "idx ! j \<in> set (take i idx)"
      by (metis in_set_conv_nth length_take min.absorb2 nth_take less_imp_le_nat)
    with lt show "fvec_L2sqr x (idx ! i) < fvec_L2sqr x (idx ! j)" by simp
  qed
  from scan_first_min[of i idx x "(FLT_MAX, - 1)" 0] i assms(3) 1 2
  have "scan x idx 0 (FLT_MAX, - 1) = (fvec_L2sqr x (idx ! i), int i)" by simp
  with assms(1) show ?thesis by (simp add: index_search_def)
qed

lemma threshold_below_FLT_MAX: "compared_threshold e (f64 (3 / 10)) < FLT_MAX"
  by (simp add: compared_threshold_def float_eval FLT_MAX_def)

lemma threshold_nonneg: "0 \<le> compared_threshold e (f64 (3 / 10))"
  by (simp add: compared_threshold_def float_eval)

section \<open>The branches of \<^verbatim>\<open>ask\<close>\<close>

lemma generate_answer_snd:
  "snd (generate_answer e s q) = s\<lparr>trace := trace s @ [Make_prediction [q]]\<rparr>"
  by (simp add: generate_answer_def Let_def)

lemma generate_answer_fst: "fst (generate_answer e s q) = fst (generate_answer e s' q)"
  by (simp add: generate_answer_def Let_def)

lemma ask_dim_fail:
  "length (encode e q) \<noteq> index_d \<Longrightarrow> ask e s q = (Inl (AskError AssertionError), s)"
  by (simp add: ask_def index_search_def)

lemma ask_hit:
  assumes "index_search (index s) (encode e q) = Inr (D, I)"
    and "I \<noteq> - 1" and "D \<le> compared_threshold e (euclidean_threshold s)"
  shows "ask e s q =
     (if nat I < length (response_text (cache s))
      then Inr (response_text (cache s) ! nat I) else Inl (AskError IndexError),
      s\<lparr>trace := trace s @ [Cache_hit (nat I)]\<rparr>)"
  using assms search_nonneg[OF assms(1)] by (simp add: ask_def Let_def)

lemma ask_miss_fail:
  assumes "index_search (index s) (encode e q) = Inr (D, I)"
    and "\<not> (I \<noteq> - 1 \<and> D \<le> compared_threshold e (euclidean_threshold s))"
    and "fst (generate_answer e s q) = Inl x"
  shows "ask e s q = (Inl (AskError x), s\<lparr>trace := trace s @ [Make_prediction [q]]\<rparr>)"
proof -
  from assms(3) generate_answer_snd[of e s q]
  have g: "generate_answer e s q = (Inl x, s\<lparr>trace := trace s @ [Make_prediction [q]]\<rparr>)"
    by (metis prod.collapse)
  show ?thesis using assms(1,2) by (auto simp: ask_def Let_def g)
qed

lemma ask_miss_ok:
  assumes "index_search (index s) (encode e q) = Inr (D, I)"
    and "\<not> (I \<noteq> - 1 \<and> D \<le> compared_threshold e (euclidean_threshold s))"
    and "fst (generate_answer e s q) = Inr (a, rt)"
  shows "ask e s q =
     (Inr rt,
      s\<lparr>index := index s @ [encode e q],
        cache := \<lparr>questions = questions (cache s) @ [q],
                  embeddings = embeddings (cache s) @ [encode e q],
                  answers = answers (cache s) @ [a],
                  response_text = response_text (cache s) @ [rt]\<rparr>,
        json_file := Stored \<lparr>questions = questions (cache s) @ [q],
                  embeddings = embeddings (cache s) @ [encode e q],
                  answers = answers (cache s) @ [a],
                  response_text = response_text (cache s) @ [rt]\<rparr>,
        trace := trace s @ [Make_prediction [q], Open_write]\<rparr>)"
proof -
  from assms(3) generate_answer_snd[of e s q]
  have g: "generate_answer e s q = (Inr (a, rt), s\<lparr>trace := trace s @ [Make_prediction [q]]\<rparr>)"
    by (metis prod.collapse)
  have d: "length (encode e q) = index_d" using assms(1) by (rule search_dim)
  show ?thesis using assms(1,2) d
    by (auto simp: ask_def Let_def g index_add_def save_cache_def)
qed

text \<open>Every call of \<^verbatim>\<open>ask\<close> ends in one of four ways.\<close>

lemma ask_cases [case_names dim hit miss_fail miss_ok]:
  obtains
    "length (encode e q) \<noteq> index_d" "ask e s q = (Inl (AskError AssertionError), s)"
  | D I where "index_search (index s) (encode e q) = Inr (D, I)"
      "I \<noteq> - 1" "D \<le> compared_threshold e (euclidean_threshold s)"
      "ask e s q =
        (if nat I < length (response_text (cache s))
         then Inr (response_text (cache s) ! nat I) else Inl (AskError IndexError),
         s\<lparr>trace := trace s @ [Cache_hit (nat I)]\<rparr>)"
  | D I x where "index_search (index s) (encode e q) = Inr (D, I)"
      "\<not> (I \<noteq> - 1 \<and> D \<le> compared_threshold e (euclidean_threshold s))"
      "fst (generate_answer e s q) = Inl x"
      "ask e s q = (Inl (AskError x), s\<lparr>trace := trace s @ [Make_prediction [q]]\<rparr>)"
  | D I a rt where "index_search (index s) (encode e q) = Inr (D, I)"
      "\<not> (I \<noteq> - 1 \<and> D \<le> compared_threshold e (euclidean_threshold s))"
      "fst (generate_answer e s q) = Inr (a, rt)"
      "ask e s q =
        (Inr rt,
         s\<lparr>index := index s @ [encode e q],
           cache := \<lparr>questions = questions (cache s) @ [q],
                     embeddings = embeddings (cache s) @ [encode e q],
                     answers = answers (cache s) @ [a],
                     response_text = response_text (cache s) @ [rt]\<rparr>,
           json_file := Stored \<lparr>questions = questions (cache s) @ [q],
                     embeddings = embeddings (cache s) @ [encode e q],
                     answers = answers (cache s) @ [a],
                     response_text = response_text (cache s) @ [rt]\<rparr>,
           trace := trace s @ [Make_prediction [q], Open_write]\<rparr>)"
proof (cases "length (encode e q) = index_d")
  case False
  then show ?thesis using that(1) ask_dim_fail by blast
next
  case True
  then obtain D I where r: "index_search (index s) (encode e q) = Inr (D, I)"
    using search_total by blast
  show ?thesis
  proof (cases "I \<noteq> - 1 \<and> D \<le> compared_threshold e (euclidean_threshold s)")
    case True
    then show ?thesis using that(2) r ask_hit[OF r] by blast
  next
    case False
    show ?thesis
    proof (cases "fst (generate_answer e s q)")
      case (Inl x)
      then show ?thesis using that(3) r False ask_miss_fail[OF r False] by blast
    next
      case (Inr p)
      obtain a rt where "p = (a, rt)" by (cases p)
      with Inr show ?thesis using that(4) r False ask_miss_ok[OF r False] by blast
    qed
  qed
qed

lemma miss_branch:
  assumes "length (encode e q) = index_d" and "\<not> took_hit_path e s q"
  obtains D I where "index_search (index s) (encode e q) = Inr (D, I)"
    "\<not> (I \<noteq> - 1 \<and> D \<le> compared_threshold e (euclidean_threshold s))"
proof -
  obtain D I where r: "index_search (index s) (encode e q) = Inr (D, I)"
    using search_total[OF assms(1)] by blast
  have "\<not> (I \<noteq> - 1 \<and> D \<le> compared_threshold e (euclidean_threshold s))"
  proof
    assume "I \<noteq> - 1 \<and> D \<le> compared_threshold e (euclidean_threshold s)"
    then have "took_hit_path e s q" using ask_hit[OF r] by (simp add: took_hit_path_def)
    with assms(2) show False by simp
  qed
  with r that show ?thesis by blast
qed

lemma ask_threshold: "euclidean_threshold (snd (ask e s q)) = euclidean_threshold s"
  by (cases rule: ask_cases[of e q s]) simp_all


section \<open>Invariants\<close>

text \<open>
  \<^verbatim>\<open>ask\<close> and \<^verbatim>\<open>clear_cache\<close> keep the index and the lists aligned, and a
  construction that finds no file or clears establishes the alignment.
\<close>

lemma aligned_ask: "aligned s \<Longrightarrow> aligned (snd (ask e s q))"
  by (cases rule: ask_cases[of e q s]) (simp_all add: aligned_def)

lemma aligned_clear_cache: "aligned (clear_cache s)"
  by (simp add: aligned_def clear_cache_def save_cache_def empty_cache_def)

lemma aligned_init_absent: "init Absent b = Inr s \<Longrightarrow> aligned s"
  by (auto simp: init_def load_cache_def aligned_def clear_cache_def save_cache_def
      empty_cache_def Let_def split: if_splits)

lemma aligned_init_clear: "init f True = Inr s \<Longrightarrow> aligned s"
  by (auto simp: init_def aligned_def clear_cache_def save_cache_def empty_cache_def Let_def)


section \<open>The hit at the nearest entry\<close>

lemma ask_hit_at_nearest:
  assumes "aligned s" and "length (encode e q2) = index_d"
    and "compared_threshold e (euclidean_threshold s) < FLT_MAX"
    and "is_nearest (embeddings (cache s)) (encode e q2) i"
    and "fvec_L2sqr (encode e q2) (embeddings (cache s) ! i)
           \<le> compared_threshold e (euclidean_threshold s)"
  shows "ask e s q2 =
           (Inr (response_text (cache s) ! i), s\<lparr>trace := trace s @ [Cache_hit i]\<rparr>)"
proof -
  have emb: "embeddings (cache s) = index s"
    and len: "length (response_text (cache s)) = length (index s)"
    using assms(1) by (simp_all add: aligned_def)
  have i: "i < length (index s)" using assms(4) emb by (simp add: is_nearest_def)
  have "fvec_L2sqr (encode e q2) (index s ! i) < FLT_MAX" using assms(3,5) emb by simp
  from search_first_min[OF assms(2) assms(4)[unfolded emb] this]
  have r: "index_search (index s) (encode e q2) = Inr (fvec_L2sqr (encode e q2) (index s ! i), int i)" .
  from ask_hit[OF r] assms(5) emb i len show ?thesis by simp
qed

lemma is_nearest_new:
  assumes "\<forall>y\<in>set idx. 0 < fvec_L2sqr x y"
  shows "is_nearest (idx @ [x]) x (length idx)"
  using assms by (auto simp: is_nearest_def fvec_L2sqr_self fvec_L2sqr_nonneg less_imp_le)

lemma miss_all_far:
  assumes "\<not> within_threshold e s q"
    and "0 \<le> compared_threshold e (euclidean_threshold s)"
  shows "\<forall>y\<in>set (index s). 0 < fvec_L2sqr (encode e q) y"
proof
  fix y assume y: "y \<in> set (index s)"
  then have ne: "index s \<noteq> []" by auto
  with assms(1) have "compared_threshold e (euclidean_threshold s)
      < nearest_distance (index s) (encode e q)"
    by (simp add: within_threshold_def)
  moreover have "nearest_distance (index s) (encode e q) \<le> fvec_L2sqr (encode e q) y"
    using y by (simp add: nearest_distance_def)
  ultimately show "0 < fvec_L2sqr (encode e q) y" using assms(2) by simp
qed

section \<open>Failures of the provider\<close>

lemma getitem_error: "getitem j k = Inl x \<Longrightarrow> x = TypeError \<or> x = KeyError k"
  by (cases j) (auto split: option.splits)

text \<open>
  What \<^verbatim>\<open>generate_answer\<close> gives to \<^verbatim>\<open>ask\<close>, and \<^verbatim>\<open>ask\<close> to its caller on the
  miss branch, is determined by what the provider did.
\<close>

lemma generate_answer_classify:
  "(case fst (generate_answer e s q) of Inl x \<Rightarrow> Inl (AskError x) | Inr (a, rt) \<Rightarrow> Inr rt) =
   surfaced (classify e q)"
  by (auto simp: generate_answer_def make_prediction_def classify_def Let_def payload_text_def
      split: option.splits http_outcome.splits sum.splits)

lemma ask_miss_result:
  assumes "index_search (index s) (encode e q) = Inr (D, I)"
    and "\<not> (I \<noteq> - 1 \<and> D \<le> compared_threshold e (euclidean_threshold s))"
  shows "fst (ask e s q) =
     (case fst (generate_answer e s q) of Inl x \<Rightarrow> Inl (AskError x) | Inr (a, rt) \<Rightarrow> Inr rt)"
proof (cases "fst (generate_answer e s q)")
  case (Inl x)
  from ask_miss_fail[OF assms Inl] Inl show ?thesis by simp
next
  case (Inr p)
  obtain a rt where p: "p = (a, rt)" by (cases p)
  from ask_miss_ok[OF assms Inr[unfolded p]] Inr p show ?thesis by simp
qed

section \<open>Asking twice\<close>

text \<open>
  In a state whose index and lists are aligned, a question that misses and is answered
  by the provider is stored once, and asked again at once it hits the new entry and gets
  the same text.
\<close>

lemma ask_twice_aligned:
  assumes "aligned s" and "length (encode e q) = index_d"
    and "0 \<le> compared_threshold e (euclidean_threshold s)"
    and "compared_threshold e (euclidean_threshold s) < FLT_MAX"
    and "\<not> within_threshold e s q"
    and "fst (generate_answer e s q) = Inr (a, rt)"
  shows "fst (ask e s q) = Inr rt \<and>
         index (snd (ask e s q)) = index s @ [encode e q] \<and>
         cache (snd (ask e s q)) =
           \<lparr>questions = questions (cache s) @ [q],
            embeddings = embeddings (cache s) @ [encode e q],
            answers = answers (cache s) @ [a],
            response_text = response_text (cache s) @ [rt]\<rparr> \<and>
         trace (snd (ask e s q)) = trace s @ [Make_prediction [q], Open_write] \<and>
         ask e (snd (ask e s q)) q =
           (Inr rt,
            (snd (ask e s q))\<lparr>trace := trace s @
               [Make_prediction [q], Open_write, Cache_hit (length (index s))]\<rparr>)"
proof -
  let ?x = "encode e q"
  obtain D I where r: "index_search (index s) ?x = Inr (D, I)"
    using search_total[OF assms(2)] by blast
  have m: "\<not> (I \<noteq> - 1 \<and> D \<le> compared_threshold e (euclidean_threshold s))"
    using search_hit_iff[OF r assms(4)] assms(5) search_nonneg[OF r]
    by (auto simp: within_threshold_def)
  note first = ask_miss_ok[OF r m assms(6)]
  let ?s1 = "snd (ask e s q)"
  have idx1: "index ?s1 = index s @ [?x]" by (simp add: first)
  have al1: "aligned ?s1" using assms(1) by (rule aligned_ask)
  have thr1: "euclidean_threshold ?s1 = euclidean_threshold s" by (rule ask_threshold)
  have near: "is_nearest (embeddings (cache ?s1)) ?x (length (index s))"
    using is_nearest_new[OF miss_all_far[OF assms(5,3)]] al1 idx1
    by (simp add: aligned_def)
  have emb1: "embeddings (cache ?s1) = index s @ [?x]"
    using al1 idx1 by (simp add: aligned_def)
  have d0: "fvec_L2sqr ?x (embeddings (cache ?s1) ! length (index s))
              \<le> compared_threshold e (euclidean_threshold ?s1)"
    using assms(3) by (simp add: emb1 thr1 fvec_L2sqr_self)
  have rt1: "response_text (cache ?s1) ! length (index s) = rt"
    using assms(1) by (simp add: first aligned_def nth_append)
  from ask_hit_at_nearest[OF al1 assms(2) assms(4)[folded thr1] near d0]
  have "ask e ?s1 q = (Inr rt, ?s1\<lparr>trace := trace ?s1 @ [Cache_hit (length (index s))]\<rparr>)"
    by (simp only: rt1)
  then show ?thesis by (simp add: first)
qed

section \<open>The example runs\<close>

lemma length_encoder_len: "length (length_encoder q) = index_d"
  by (simp add: length_encoder_def pad_def index_d_def)

lemma dist_a_c: "fvec_L2sqr (length_encoder ''a'') (length_encoder ''ccccccc'') = 9 / 16"
  by (simp add: length_encoder_def fvec_L2sqr_last float_eval)

lemma dist_c_a: "fvec_L2sqr (length_encoder ''ccccccc'') (length_encoder ''a'') = 9 / 16"
  by (simp add: length_encoder_def fvec_L2sqr_last float_eval)

lemma dist_b_a: "fvec_L2sqr (length_encoder ''bbbbb'') (length_encoder ''a'') = 1 / 4"
  by (simp add: length_encoder_def fvec_L2sqr_last float_eval)

lemma dist_b_c: "fvec_L2sqr (length_encoder ''bbbbb'') (length_encoder ''ccccccc'') = 1 / 16"
  by (simp add: length_encoder_def fvec_L2sqr_last float_eval)

lemmas dists = fvec_L2sqr_self dist_a_c dist_c_a dist_b_a dist_b_c

lemma encode_env [simp]:
  "encode env_up = length_encoder" "encode env_down = length_encoder"
  "encode env_500 = length_encoder" "encode env_null = length_encoder"
  "encode env_boundary = boundary_encoder"
  by (simp_all add: env_up_def env_down_def env_500_def env_null_def env_boundary_def)

lemma compared_up [simp]:
  "compared_threshold env_up (f64 (3 / 10)) = 10066330 / 2 ^ 25"
  "compared_threshold env_boundary (f64 (3 / 10)) = 10066330 / 2 ^ 25"
  by (simp_all add: compared_threshold_def env_up_def env_boundary_def numpy_threshold)

lemma generate_up: "fst (generate_answer env_up s q) = Inr (answer_of q, JStr q)"
  by (simp add: generate_answer_def make_prediction_def env_up_def echo_post_def answer_of_def Let_def)

lemma generate_boundary: "fst (generate_answer env_boundary s q) = Inr (answer_of q, JStr q)"
  by (simp add: generate_answer_def make_prediction_def env_boundary_def echo_post_def
      answer_of_def Let_def)

lemma generate_down: "fst (generate_answer env_down s q) = Inl (GenerateAnswerError TypeError)"
  by (simp add: generate_answer_def make_prediction_def env_down_def Let_def)

lemma generate_500: "fst (generate_answer env_500 s q) = Inl (GenerateAnswerError TypeError)"
  by (simp add: generate_answer_def make_prediction_def env_500_def Let_def)

lemma generate_null: "fst (generate_answer env_null s q) = Inr (null_answer, JNull)"
  by (simp add: generate_answer_def make_prediction_def env_null_def null_answer_def Let_def)

lemma init_fresh: "init Absent False = Inr fresh"
  by (simp add: init_def load_cache_def fresh_def)

lemma aligned_fresh: "aligned fresh"
  using init_fresh by (rule aligned_init_absent)

lemma reachable_fresh: "reachable e fresh"
  using init_fresh by (rule reachable.constructed)

lemma search_fresh: "index_search (index fresh) (length_encoder q) = Inr (FLT_MAX, - 1)"
  by (simp add: index_search_def length_encoder_len fresh_def)

lemma no_hit_on_sentinel:
  "\<not> (- 1 \<noteq> (- 1 :: int) \<and> FLT_MAX \<le> compared_threshold e (euclidean_threshold s))"
  by simp

lemma miss_fresh_down: "\<not> took_hit_path env_down fresh ''a''"
proof -
  have r: "index_search (index fresh) (encode env_down ''a'') = Inr (FLT_MAX, - 1)"
    by (simp add: search_fresh)
  from ask_miss_fail[OF r no_hit_on_sentinel generate_down] show ?thesis
    by (simp add: took_hit_path_def)
qed

lemma ask_up_fresh:
  "ask env_up fresh ''a'' =
     (Inr (JStr ''a''),
      \<lparr>index = [length_encoder ''a''], euclidean_threshold = f64 (3 / 10), cache = entry_a,
       json_file = Stored entry_a,
       trace = [Open_read, Make_prediction [''a''], Open_write]\<rparr>)"
proof -
  have r: "index_search (index fresh) (encode env_up ''a'') = Inr (FLT_MAX, - 1)"
    by (simp add: search_fresh)
  from ask_miss_ok[OF r no_hit_on_sentinel generate_up] show ?thesis
    by (simp add: fresh_def entry_a_def empty_cache_def)
qed

lemma after_a_eq:
  "after_a =
     \<lparr>index = [length_encoder ''a''], euclidean_threshold = f64 (3 / 10), cache = entry_a,
      json_file = Stored entry_a,
      trace = [Open_read, Make_prediction [''a''], Open_write]\<rparr>"
  by (simp add: after_a_def ask_up_fresh)

lemma thr_after_a: "euclidean_threshold after_a = f64 (3 / 10)"
  by (simp add: after_a_eq)

lemma reachable_after_a: "reachable env_up after_a"
  unfolding after_a_def using reachable_fresh by (rule reachable.asked)

lemma aligned_after_a: "aligned after_a"
  unfolding after_a_def using aligned_fresh by (rule aligned_ask)


lemma search_after_a_c:
  "index_search (index after_a) (length_encoder ''ccccccc'') = Inr (9 / 16, 0)"
  by (simp add: index_search_def length_encoder_len after_a_eq dists FLT_MAX_def)

lemma ask_up_after_a:
  "ask env_up after_a ''ccccccc'' =
     (Inr (JStr ''ccccccc''),
      \<lparr>index = [length_encoder ''a'', length_encoder ''ccccccc''],
       euclidean_threshold = f64 (3 / 10),
       cache = \<lparr>questions = [''a'', ''ccccccc''],
                embeddings = [length_encoder ''a'', length_encoder ''ccccccc''],
                answers = [answer_of ''a'', answer_of ''ccccccc''],
                response_text = [JStr ''a'', JStr ''ccccccc'']\<rparr>,
       json_file = Stored \<lparr>questions = [''a'', ''ccccccc''],
                embeddings = [length_encoder ''a'', length_encoder ''ccccccc''],
                answers = [answer_of ''a'', answer_of ''ccccccc''],
                response_text = [JStr ''a'', JStr ''ccccccc'']\<rparr>,
       trace = [Open_read, Make_prediction [''a''], Open_write,
                Make_prediction [''ccccccc''], Open_write]\<rparr>)"
proof -
  have r: "index_search (index after_a) (encode env_up ''ccccccc'') = Inr (9 / 16, 0)"
    by (simp add: search_after_a_c)
  have m: "\<not> ((0::int) \<noteq> - 1 \<and> 9 / 16 \<le> compared_threshold env_up (euclidean_threshold after_a))"
    by (simp add: after_a_eq)
  from ask_miss_ok[OF r m generate_up] show ?thesis
    by (simp add: after_a_eq entry_a_def)
qed

lemma after_ac_eq:
  "after_ac =
     \<lparr>index = [length_encoder ''a'', length_encoder ''ccccccc''],
      euclidean_threshold = f64 (3 / 10),
      cache = \<lparr>questions = [''a'', ''ccccccc''],
               embeddings = [length_encoder ''a'', length_encoder ''ccccccc''],
               answers = [answer_of ''a'', answer_of ''ccccccc''],
               response_text = [JStr ''a'', JStr ''ccccccc'']\<rparr>,
      json_file = Stored \<lparr>questions = [''a'', ''ccccccc''],
               embeddings = [length_encoder ''a'', length_encoder ''ccccccc''],
               answers = [answer_of ''a'', answer_of ''ccccccc''],
               response_text = [JStr ''a'', JStr ''ccccccc'']\<rparr>,
      trace = [Open_read, Make_prediction [''a''], Open_write,
               Make_prediction [''ccccccc''], Open_write]\<rparr>"
  by (simp add: after_ac_def ask_up_after_a)

lemma reachable_after_ac: "reachable env_up after_ac"
  unfolding after_ac_def using reachable_after_a by (rule reachable.asked)

lemma aligned_after_ac: "aligned after_ac"
  unfolding after_ac_def using aligned_after_a by (rule aligned_ask)

lemma search_after_ac_b:
  "index_search (index after_ac) (length_encoder ''bbbbb'') = Inr (1 / 16, 1)"
  by (simp add: index_search_def length_encoder_len after_ac_eq dists FLT_MAX_def)

text \<open>
  After a restart on the file of the first session the index is empty. A new question is a
  miss and is stored at list position 1 and index position 0.
\<close>

lemma ask_up_reloaded:
  "ask env_up reloaded ''ccccccc'' =
     (Inr (JStr ''ccccccc''),
      \<lparr>index = [length_encoder ''ccccccc''], euclidean_threshold = f64 (3 / 10),
       cache = \<lparr>questions = [''a'', ''ccccccc''],
                embeddings = [length_encoder ''a'', length_encoder ''ccccccc''],
                answers = [answer_of ''a'', answer_of ''ccccccc''],
                response_text = [JStr ''a'', JStr ''ccccccc'']\<rparr>,
       json_file = Stored \<lparr>questions = [''a'', ''ccccccc''],
                embeddings = [length_encoder ''a'', length_encoder ''ccccccc''],
                answers = [answer_of ''a'', answer_of ''ccccccc''],
                response_text = [JStr ''a'', JStr ''ccccccc'']\<rparr>,
       trace = [Open_read, Make_prediction [''ccccccc''], Open_write]\<rparr>)"
proof -
  have r: "index_search (index reloaded) (encode env_up ''ccccccc'') = Inr (FLT_MAX, - 1)"
    by (simp add: index_search_def length_encoder_len reloaded_def)
  from ask_miss_ok[OF r no_hit_on_sentinel generate_up] show ?thesis
    by (simp add: reloaded_def entry_a_def)
qed

lemma search_reloaded_again:
  "index_search (index (snd (ask env_up reloaded ''ccccccc''))) (encode env_up ''ccccccc'')
     = Inr (0, 0)"
  by (simp add: ask_up_reloaded index_search_def length_encoder_len dists FLT_MAX_def)

text \<open>The vectors at the boundary: their lengths and their distances.\<close>

lemma boundary_encoder_len: "length (boundary_encoder q) = index_d"
  by (simp add: boundary_encoder_def origin_def near_boundary_def pad765_def index_d_def)

lemma sq_dist_prefix: "sq_dist (z @ x) (z @ y) = sq_dist x y"
  by (induction z) (simp_all add: sq_dist_def)

lemma f32_fifth: "f32 (1 / 5) = 13421773 / 2 ^ 26"
  by (simp add: float_eval)

lemma f32_tenth: "f32 (1 / 10) = 13421773 / 2 ^ 27"
  by (simp add: float_eval)

lemma reported_at_boundary: "fvec_L2sqr near_boundary origin = 10066329 / 2 ^ 25"
proof -
  have "fvec_L2sqr near_boundary origin =
          fvec_L2sqr [1 / 2, 13421773 / 2 ^ 26, 13421773 / 2 ^ 27] [0, 0, 0]"
    by (simp add: near_boundary_def origin_def fvec_L2sqr_prefix f32_fifth f32_tenth)
  also have "\<dots> = 10066329 / 2 ^ 25"
    by (simp add: fvec_L2sqr_def float_eval)
  finally show ?thesis .
qed

lemma exact_at_boundary: "3 / 10 < sq_dist near_boundary origin"
  by (simp add: near_boundary_def origin_def sq_dist_prefix f32_fifth f32_tenth)
    (simp add: sq_dist_def power2_eq_square)

lemma ask_boundary_fresh:
  "ask env_boundary fresh [] =
     (Inr (JStr []),
      \<lparr>index = [origin], euclidean_threshold = f64 (3 / 10),
       cache = \<lparr>questions = [[]], embeddings = [origin], answers = [answer_of []],
                response_text = [JStr []]\<rparr>,
       json_file = Stored \<lparr>questions = [[]], embeddings = [origin], answers = [answer_of []],
                response_text = [JStr []]\<rparr>,
       trace = [Open_read, Make_prediction [[]], Open_write]\<rparr>)"
proof -
  have r: "index_search (index fresh) (encode env_boundary []) = Inr (FLT_MAX, - 1)"
    by (simp add: index_search_def boundary_encoder_len fresh_def)
  from ask_miss_ok[OF r no_hit_on_sentinel generate_boundary] show ?thesis
    by (simp add: fresh_def empty_cache_def boundary_encoder_def)
qed

lemma search_at_boundary:
  "index_search (index after_empty) (encode env_boundary ''x'') = Inr (10066329 / 2 ^ 25, 0)"
  by (simp add: after_empty_def ask_boundary_fresh index_search_def boundary_encoder_len
      reported_at_boundary FLT_MAX_def)
    (simp add: boundary_encoder_def reported_at_boundary)

section \<open>The claims\<close>

text \<open>
  C1. In every reachable state of an instance, also after a construction that loads a
  non-empty cache file, the number of vectors in the index equals the length of each of
  the four lists. The code does not keep this: \<^verbatim>\<open>load_cache\<close> fills the lists from
  the file and leaves the index empty, while \<^verbatim>\<open>clear_cache\<close> and \<^verbatim>\<open>ask\<close> change
  both together. On the file that the first session wrote after one question, the
  constructor returns an instance with no vector and one entry in each list.
\<close>

theorem reload_breaks_lockstep:
  "json_file after_a = Stored entry_a \<and>
   init (Stored entry_a) False = Inr reloaded \<and>
   length (index reloaded) = 0 \<and>
   length (questions (cache reloaded)) = 1 \<and>
   length (embeddings (cache reloaded)) = 1 \<and>
   length (answers (cache reloaded)) = 1 \<and>
   length (response_text (cache reloaded)) = 1"
  by (simp add: after_a_eq load_cache_def init_def reloaded_def entry_a_def)

text \<open>
  C2, as amended. With a query of the dimension of the index and the compared threshold
  below the sentinel distance, \<^verbatim>\<open>ask\<close> takes the hit branch if and only if the index
  is not empty and the distance that the search reports for the nearest stored vector,
  the squared distance accumulated in 32-bit floats, is at most the threshold as numpy
  compares the two. The comparison is \<open>\<le>\<close>: a reported distance equal to the compared
  threshold is a hit, a greater one a miss.
\<close>

theorem hit_decision:
  assumes "length (encode e q) = index_d"
    and "compared_threshold e (euclidean_threshold s) < FLT_MAX"
  shows "took_hit_path e s q \<longleftrightarrow> within_threshold e s q"
proof (cases rule: ask_cases[of e q s])
  case dim
  with assms show ?thesis by simp
next
  case (hit D I)
  from search_hit_iff[OF hit(1) assms(2)] hit(2,3) search_nonneg[OF hit(1)]
  have "within_threshold e s q" by (simp add: within_threshold_def)
  moreover have "took_hit_path e s q" by (simp add: took_hit_path_def hit(4))
  ultimately show ?thesis by simp
next
  case (miss_fail D I x)
  from search_hit_iff[OF miss_fail(1) assms(2)] miss_fail(2)
  have "\<not> within_threshold e s q" by (auto simp: within_threshold_def)
  moreover have "\<not> took_hit_path e s q" by (simp add: took_hit_path_def miss_fail(4))
  ultimately show ?thesis by simp
next
  case (miss_ok D I a rt)
  from search_hit_iff[OF miss_ok(1) assms(2)] miss_ok(2)
  have "\<not> within_threshold e s q" by (auto simp: within_threshold_def)
  moreover have "\<not> took_hit_path e s q" by (simp add: took_hit_path_def miss_ok(4))
  ultimately show ?thesis by simp
qed

theorem hit_decision_witness:
  "length (encode env_up ''a'') = index_d \<and>
   compared_threshold env_up (euclidean_threshold after_a) < FLT_MAX \<and>
   took_hit_path env_up after_a ''a'' \<and> within_threshold env_up after_a ''a'' \<and>
   \<not> took_hit_path env_up after_a ''ccccccc'' \<and> \<not> within_threshold env_up after_a ''ccccccc''"
proof -
  have d: "length (encode env_up q) = index_d" for q by (simp add: length_encoder_len)
  have t: "compared_threshold env_up (euclidean_threshold after_a) < FLT_MAX"
    by (simp add: thr_after_a FLT_MAX_def)
  have w: "within_threshold env_up after_a ''a''"
    by (simp add: within_threshold_def nearest_distance_def after_a_eq dists)
  have n: "\<not> within_threshold env_up after_a ''ccccccc''"
    by (simp add: within_threshold_def nearest_distance_def after_a_eq dists)
  from hit_decision[OF d t, of "''a''"] hit_decision[OF d t, of "''ccccccc''"] d t w n
  show ?thesis by simp
qed

text \<open>
  The claim as it was stated is about the squared Euclidean distance itself. With the
  zero vector stored and a query whose last coordinates are the 32-bit floats 0.5, 0.2
  and 0.1, the squared distance is above 3/10 and above the threshold, the distance that
  FAISS reports is the 32-bit float below 0.3, and \<^verbatim>\<open>ask\<close> takes the hit branch,
  under either promotion rule of numpy.
\<close>

theorem hit_decision_counterexample:
  "index after_empty = [origin] \<and>
   encode env_boundary ''x'' = near_boundary \<and>
   euclidean_threshold after_empty < 3 / 10 \<and>
   3 / 10 < nearest_sq_dist (index after_empty) (encode env_boundary ''x'') \<and>
   nearest_distance (index after_empty) (encode env_boundary ''x'') = 10066329 / 2 ^ 25 \<and>
   took_hit_path env_boundary after_empty ''x'' \<and>
   took_hit_path (env_boundary\<lparr>weak_scalars := False\<rparr>) after_empty ''x''"
proof -
  have i: "index after_empty = [origin]" "euclidean_threshold after_empty = f64 (3 / 10)"
    by (simp_all add: after_empty_def ask_boundary_fresh)
  have e: "encode env_boundary ''x'' = near_boundary" by (simp add: boundary_encoder_def)
  have t: "f64 (3 / 10) < 3 / 10" by (simp add: python_threshold)
  have h: "took_hit_path env_boundary after_empty ''x''"
    using ask_hit[OF search_at_boundary] by (simp add: took_hit_path_def i)
  have r: "index_search (index after_empty)
             (encode (env_boundary\<lparr>weak_scalars := False\<rparr>) ''x'') = Inr (10066329 / 2 ^ 25, 0)"
    using search_at_boundary by simp
  have h': "took_hit_path (env_boundary\<lparr>weak_scalars := False\<rparr>) after_empty ''x''"
    using ask_hit[OF r]
    by (simp add: took_hit_path_def i compared_threshold_def python_threshold)
  from i e t h h' exact_at_boundary reported_at_boundary show ?thesis
    by (simp add: nearest_sq_dist_def nearest_distance_def)
qed



text \<open>
  C4. A question asked twice in immediate succession, a miss that the provider answers
  and then a hit, gets the same response text both times. The code does not keep this
  after a restart: on the instance constructed on the file of the first session the index
  is empty while the lists hold the old entry, so the new question is stored at list
  position 1 and index position 0, and asked again it hits index position 0 and gets the
  text at list position 0, which belongs to the old question.
\<close>

theorem reload_breaks_miss_then_hit:
  "json_file after_a = Stored entry_a \<and>
   init (Stored entry_a) False = Inr reloaded \<and>
   fst (ask env_up reloaded ''ccccccc'') = Inr (JStr ''ccccccc'') \<and>
   trace (snd (ask env_up reloaded ''ccccccc'')) =
     [Open_read, Make_prediction [''ccccccc''], Open_write] \<and>
   ask env_up (snd (ask env_up reloaded ''ccccccc'')) ''ccccccc'' =
     (Inr (JStr ''a''),
      (snd (ask env_up reloaded ''ccccccc''))
        \<lparr>trace := [Open_read, Make_prediction [''ccccccc''], Open_write, Cache_hit 0]\<rparr>)"
proof -
  have 1: "json_file after_a = Stored entry_a" by (simp add: after_a_eq)
  have 2: "init (Stored entry_a) False = Inr reloaded"
    by (simp add: load_cache_def init_def reloaded_def)
  have 3: "fst (ask env_up reloaded ''ccccccc'') = Inr (JStr ''ccccccc'')"
    "trace (snd (ask env_up reloaded ''ccccccc'')) =
       [Open_read, Make_prediction [''ccccccc''], Open_write]"
    by (simp_all add: ask_up_reloaded)
  have 4: "ask env_up (snd (ask env_up reloaded ''ccccccc'')) ''ccccccc'' =
     (Inr (JStr ''a''),
      (snd (ask env_up reloaded ''ccccccc''))
        \<lparr>trace := [Open_read, Make_prediction [''ccccccc''], Open_write, Cache_hit 0]\<rparr>)"
    using ask_hit[OF search_reloaded_again] by (simp add: ask_up_reloaded)
  from 1 2 3 4 show ?thesis by (intro conjI)
qed



text \<open>
  C6, as amended. In a state whose index and lists are aligned, for a question whose
  embedding is within the threshold of the stored embedding at position \<open>i\<close>, where
  position \<open>i\<close> is the nearest stored embedding (the first one on a tie), \<^verbatim>\<open>ask\<close>
  returns the response text stored with entry \<open>i\<close> and does not call the provider.
  Distances are those that FAISS reports, compared with the threshold as numpy does.
\<close>

theorem ask_nearest_entry:
  assumes "aligned s" and "length (encode e q2) = index_d"
    and "compared_threshold e (euclidean_threshold s) < FLT_MAX"
    and "is_nearest (embeddings (cache s)) (encode e q2) i"
    and "fvec_L2sqr (encode e q2) (embeddings (cache s) ! i)
           \<le> compared_threshold e (euclidean_threshold s)"
  shows "ask e s q2 =
           (Inr (response_text (cache s) ! i), s\<lparr>trace := trace s @ [Cache_hit i]\<rparr>)"
  using assms by (rule ask_hit_at_nearest)

theorem ask_nearest_entry_witness:
  "aligned after_ac \<and> length (encode env_up ''bbbbb'') = index_d \<and>
   compared_threshold env_up (euclidean_threshold after_ac) < FLT_MAX \<and>
   is_nearest (embeddings (cache after_ac)) (encode env_up ''bbbbb'') 1 \<and>
   fvec_L2sqr (encode env_up ''bbbbb'') (embeddings (cache after_ac) ! 1)
     \<le> compared_threshold env_up (euclidean_threshold after_ac) \<and>
   questions (cache after_ac) ! 1 = ''ccccccc'' \<and>
   ask env_up after_ac ''bbbbb'' =
     (Inr (JStr ''ccccccc''), after_ac\<lparr>trace := trace after_ac @ [Cache_hit 1]\<rparr>)"
proof -
  have d: "length (encode env_up ''bbbbb'') = index_d" by (simp add: length_encoder_len)
  have t: "compared_threshold env_up (euclidean_threshold after_ac) < FLT_MAX"
    by (simp add: after_ac_eq FLT_MAX_def)
  have n: "is_nearest (embeddings (cache after_ac)) (encode env_up ''bbbbb'') 1"
    by (simp add: is_nearest_def after_ac_eq dists)
  have c: "fvec_L2sqr (encode env_up ''bbbbb'') (embeddings (cache after_ac) ! 1)
             \<le> compared_threshold env_up (euclidean_threshold after_ac)"
    by (simp add: after_ac_eq dists)
  have q: "questions (cache after_ac) ! 1 = ''ccccccc''"
    "response_text (cache after_ac) ! 1 = JStr ''ccccccc''"
    by (simp_all add: after_ac_eq)
  from ask_nearest_entry[OF aligned_after_ac d t n c] aligned_after_ac d t n c q
  show ?thesis by simp
qed

text \<open>
  The claim as it was stated fails when another entry is nearer: \<^verbatim>\<open>"bbbbb"\<close> is within
  the threshold of the stored \<^verbatim>\<open>"a"\<close> (squared distance 0.25) and nearer to the stored
  \<^verbatim>\<open>"ccccccc"\<close> (0.0625), and \<^verbatim>\<open>ask\<close> returns the text of the latter.
\<close>

theorem ask_nearest_entry_counterexample:
  "fst (ask env_up fresh ''a'') = Inr (JStr ''a'') \<and>
   questions (cache after_ac) ! 0 = ''a'' \<and>
   embeddings (cache after_ac) ! 0 = encode env_up ''a'' \<and>
   response_text (cache after_ac) ! 0 = JStr ''a'' \<and>
   fvec_L2sqr (encode env_up ''bbbbb'') (encode env_up ''a'')
     \<le> compared_threshold env_up (euclidean_threshold after_ac) \<and>
   fst (ask env_up after_ac ''bbbbb'') = Inr (JStr ''ccccccc'')"
proof -
  have r: "index_search (index after_ac) (encode env_up ''bbbbb'') = Inr (1 / 16, 1)"
    by (simp add: search_after_ac_b)
  have "ask env_up after_ac ''bbbbb'' =
          (Inr (JStr ''ccccccc''), after_ac\<lparr>trace := trace after_ac @ [Cache_hit 1]\<rparr>)"
    using ask_hit[OF r] by (simp add: after_ac_eq)
  then show ?thesis
    by (simp add: ask_up_fresh after_ac_eq dists)
qed

text \<open>
  C7, as amended. When the cache file exists and cannot be parsed, \<^verbatim>\<open>load_cache\<close>
  and the constructor fail with the exception of \<^verbatim>\<open>json.load\<close>; when it can be
  parsed, they succeed and take the four lists as they are stored, whatever their lengths.
\<close>

theorem load_cache_unvalidated:
  "load_cache (s\<lparr>json_file := Unparseable\<rparr>) = Inl JSONDecodeError \<and>
   init Unparseable False = Inl JSONDecodeError \<and>
   load_cache (s\<lparr>json_file := Stored c\<rparr>) =
     Inr (s\<lparr>json_file := Stored c, cache := c, trace := trace s @ [Open_read]\<rparr>) \<and>
   init (Stored c) False =
     Inr \<lparr>index = [], euclidean_threshold = f64 (3 / 10), cache = c,
          json_file = Stored c, trace = [Open_read]\<rparr>"
  by (simp add: load_cache_def init_def)

text \<open>
  The claim as it was stated asks for a failure on lists of different lengths; the
  constructor succeeds on a store with two questions and one response text.
\<close>

theorem load_cache_unvalidated_counterexample:
  "length (questions uneven) = 2 \<and> length (response_text uneven) = 1 \<and>
   init (Stored uneven) False =
     Inr \<lparr>index = [], euclidean_threshold = f64 (3 / 10), cache = uneven,
          json_file = Stored uneven, trace = [Open_read]\<rparr>"
  by (simp add: load_cache_def init_def uneven_def)

text \<open>
  C8, as amended. When \<^verbatim>\<open>ask\<close> does not take the hit branch, what it gives its caller
  is determined by what the provider did. It raises when the credential is missing or
  empty (wrapping the error of \<^verbatim>\<open>make_prediction\<close>), when the request fails, the
  status is not 200 or the body is not JSON (all three are caught by
  \<^verbatim>\<open>make_prediction\<close>, which returns \<^verbatim>\<open>None\<close>, and reach the caller as the same
  wrapped \<^verbatim>\<open>TypeError\<close>), and when the body has no \<^verbatim>\<open>['data']['response_text']\<close>.
  It returns whatever value a body of status 200 has there, a string or not.
\<close>

theorem provider_outcome_surfaces:
  assumes "length (encode e q) = index_d" and "\<not> took_hit_path e s q"
  shows "fst (ask e s q) = surfaced (classify e q)"
proof -
  obtain D I where "index_search (index s) (encode e q) = Inr (D, I)"
    "\<not> (I \<noteq> - 1 \<and> D \<le> compared_threshold e (euclidean_threshold s))"
    using miss_branch[OF assms(1,2)] by blast
  from ask_miss_result[OF this] show ?thesis by (simp only: generate_answer_classify)
qed

theorem provider_outcome_surfaces_witness:
  "length (encode env_down ''a'') = index_d \<and> \<not> took_hit_path env_down fresh ''a'' \<and>
   classify env_down ''a'' = Network_failure \<and>
   fst (ask env_down fresh ''a'') = Inl (AskError (GenerateAnswerError TypeError))"
proof -
  have d: "length (encode env_down ''a'') = index_d" by (simp add: length_encoder_len)
  have c: "classify env_down ''a'' = Network_failure"
    by (simp add: classify_def env_down_def)
  from provider_outcome_surfaces[OF d miss_fresh_down] d miss_fresh_down c
  show ?thesis by simp
qed

text \<open>
  The claim as it was stated fails on a body of status 200 whose response text is
  \<^verbatim>\<open>null\<close>: it is not a success of the provider, and \<^verbatim>\<open>ask\<close> stores it and returns
  it. A failed request and a status 500 reach the caller as the same exception.
\<close>

theorem provider_outcome_surfaces_counterexample:
  "provider_failure env_null ''a'' \<and>
   fst (ask env_null fresh ''a'') = Inr JNull \<and>
   response_text (cache (snd (ask env_null fresh ''a''))) = [JNull] \<and>
   provider_failure env_down ''a'' \<and> provider_failure env_500 ''a'' \<and>
   fst (ask env_down fresh ''a'') = Inl (AskError (GenerateAnswerError TypeError)) \<and>
   fst (ask env_500 fresh ''a'') = Inl (AskError (GenerateAnswerError TypeError))"
proof -
  have r: "index_search (index fresh) (encode e ''a'') = Inr (FLT_MAX, - 1)"
    if "encode e = length_encoder" for e :: env
    using that by (simp add: search_fresh)
  have "provider_failure env_null ''a''"
    by (simp add: provider_failure_def env_null_def null_answer_def payload_text_def)
  moreover have "provider_failure env_down ''a''" "provider_failure env_500 ''a''"
    by (simp_all add: provider_failure_def env_down_def env_500_def)
  moreover from ask_miss_ok[OF r no_hit_on_sentinel generate_null]
  have "fst (ask env_null fresh ''a'') = Inr JNull"
    "response_text (cache (snd (ask env_null fresh ''a''))) = [JNull]"
    by (simp_all add: fresh_def empty_cache_def)
  moreover from ask_miss_fail[OF r no_hit_on_sentinel generate_down]
  have "fst (ask env_down fresh ''a'') = Inl (AskError (GenerateAnswerError TypeError))"
    by simp
  moreover from ask_miss_fail[OF r no_hit_on_sentinel generate_500]
  have "fst (ask env_500 fresh ''a'') = Inl (AskError (GenerateAnswerError TypeError))"
    by simp
  ultimately show ?thesis by simp
qed

text \<open>
  C9. When the cache file does not exist, \<^verbatim>\<open>load_cache\<close> sets the four lists to
  empty and does not fail, and so does the constructor.
\<close>

theorem load_cache_absent:
  "load_cache (s\<lparr>json_file := Absent\<rparr>) =
     Inr (s\<lparr>json_file := Absent, cache := empty_cache, trace := trace s @ [Open_read]\<rparr>) \<and>
   init Absent False =
     Inr \<lparr>index = [], euclidean_threshold = f64 (3 / 10),
          cache = \<lparr>questions = [], embeddings = [], answers = [], response_text = []\<rparr>,
          json_file = Absent, trace = [Open_read]\<rparr>"
  by (simp add: load_cache_def init_def empty_cache_def)

text \<open>
  C10. On an empty index, with a query of the dimension of the index, the search runs and
  returns the sentinel distance and the label -1; \<^verbatim>\<open>ask\<close> does not take the hit
  branch, calls the provider next, and fails only if the generation fails.
\<close>

theorem ask_empty_index:
  assumes "index s = []" and "length (encode e q) = index_d"
  shows "index_search (index s) (encode e q) = Inr (FLT_MAX, - 1) \<and>
         \<not> took_hit_path e s q \<and>
         take (Suc (length (trace s))) (trace (snd (ask e s q))) =
           trace s @ [Make_prediction [q]] \<and>
         fst (ask e s q) =
           (case fst (generate_answer e s q) of
              Inl x \<Rightarrow> Inl (AskError x) | Inr (a, rt) \<Rightarrow> Inr rt)"
proof -
  have r: "index_search (index s) (encode e q) = Inr (FLT_MAX, - 1)"
    using assms by (simp add: index_search_def)
  show ?thesis
  proof (cases "fst (generate_answer e s q)")
    case (Inl x)
    from ask_miss_fail[OF r no_hit_on_sentinel Inl] r Inl show ?thesis
      by (simp add: took_hit_path_def)
  next
    case (Inr p)
    obtain a rt where p: "p = (a, rt)" by (cases p)
    from ask_miss_ok[OF r no_hit_on_sentinel Inr[unfolded p]] r Inr p show ?thesis
      by (simp add: took_hit_path_def)
  qed
qed

theorem ask_empty_index_witness:
  "index fresh = [] \<and> length (encode env_up ''a'') = index_d \<and>
   \<not> took_hit_path env_up fresh ''a'' \<and> fst (ask env_up fresh ''a'') = Inr (JStr ''a'')"
proof -
  have i: "index fresh = []" by (simp add: fresh_def)
  have d: "length (encode env_up ''a'') = index_d" by (simp add: length_encoder_len)
  from ask_empty_index[OF i d] i d show ?thesis by (simp add: generate_up)
qed

end
